theory Spec2Isabelle
  imports Main "HOL-Library.Sublist"
begin

section \<open>The archive URL pattern\<close>

text \<open>
  The constructor of \<open>NessieDemoSpark\<close> runs
  \<^verbatim>\<open>re.match(".*[/]([a-zA-Z0-9-.]+)[.]tgz", spark_url)\<close>.
  \<open>re.match\<close> anchors the pattern at the start of the string only. The matcher below is
  the backtracking search of that pattern, one function per part of it, each trying the
  alternatives in the order Python's engine does (greedy: the longer repetition first).
\<close>

text \<open>The class \<open>[a-zA-Z0-9-.]\<close>: three ranges and the two literals \<open>-\<close> and \<open>.\<close>.\<close>

definition name_char :: "char \<Rightarrow> bool" where
  "name_char c = (let n = (of_char c :: nat) in
     (97 \<le> n \<and> n \<le> 122) \<or> (65 \<le> n \<and> n \<le> 90) \<or> (48 \<le> n \<and> n \<le> 57)
     \<or> c = CHR ''-'' \<or> c = CHR ''.'')"

text \<open>The pattern \<open>.\<close> without the DOTALL flag: any character but the line feed.\<close>

definition dot_char :: "char \<Rightarrow> bool" where
  "dot_char c = (c \<noteq> CHR 0x0A)"

text \<open>\<open>[a-zA-Z0-9-.]*[.]tgz\<close> at the head of the string: the rest of the group, then the suffix.\<close>

fun match_name_rest :: "string \<Rightarrow> string option" where
  "match_name_rest [] = None"
| "match_name_rest (c # cs) =
     (case (if name_char c then match_name_rest cs else None) of
        Some n \<Rightarrow> Some (c # n)
      | None \<Rightarrow> if prefix ''.tgz'' (c # cs) then Some [] else None)"

text \<open>\<open>([a-zA-Z0-9-.]+)[.]tgz\<close> at the head of the string; the result is group 1.\<close>

fun match_name :: "string \<Rightarrow> string option" where
  "match_name [] = None"
| "match_name (c # cs) =
     (if name_char c then map_option ((#) c) (match_name_rest cs) else None)"

text \<open>The whole pattern, \<open>.*[/]([a-zA-Z0-9-.]+)[.]tgz\<close>; the result is \<open>m.group(1)\<close>.\<close>

fun re_match :: "string \<Rightarrow> string option" where
  "re_match [] = None"
| "re_match (c # cs) =
     (case (if dot_char c then re_match cs else None) of
        Some n \<Rightarrow> Some n
      | None \<Rightarrow> if c = CHR ''/'' then match_name cs else None)"

section \<open>Values, exceptions and the interpreter state\<close>

datatype exn = Exception string | AttributeError string | OtherError string

text \<open>
  \<open>NessieDemo\<close> lives in \<open>demo.py\<close>, which is not part of the sources at hand. The class is
  taken as a parameter: what its accessors return, and an identity for the instance.
\<close>

record nessie_demo =
  demo_id :: nat
  spark_tarball :: string
  asset_dir :: "string \<Rightarrow> string"
  iceberg_version :: string
  nessie_api_uri :: string

datatype val = Demo nessie_demo | Session nat | Context nat | Jvm nat

text \<open>Calls that leave the module: console output, \<open>_Util\<close>, findspark, pyspark, py4j, the demo.\<close>

datatype event =
    Print string
  | Wget string string
  | ExecFail "string list"
  | FindsparkInit
  | GetOrCreate
  | JavaImport nat string
  | NewSession nat
  | ConfSet nat string string
  | SessionStop nat
  | ContextStop nat
  | GatewayShutdown nat
  | DemoStop nat

text \<open>
  The surroundings of the module are a parameter as well: whether an outside call raises
  (given the calls made so far), what it does to the file system, what \<open>os.path.abspath\<close>
  returns in the current directory, and the entries a new \<open>SparkConf()\<close> starts with.
\<close>

record ext =
  raises :: "event list \<Rightarrow> event \<Rightarrow> exn option"
  fs_effect :: "event \<Rightarrow> string set \<Rightarrow> string set"
  abspath :: "string \<Rightarrow> string"
  conf_defaults :: "string \<rightharpoonup> string"

record spark_session =
  s_context :: nat
  s_conf :: "string \<rightharpoonup> string"

text \<open>
  The state: the instances of \<open>NessieDemoSpark\<close> (each one its attribute dictionary), the
  module variable \<open>__NESSIE_SPARK_DEMO__\<close>, the file system and environment, the part of
  pyspark's state the module reads, and the log of outside calls.
\<close>

record world =
  objs :: "nat \<Rightarrow> string \<rightharpoonup> val"
  next_id :: nat
  registry :: "nat option"
  fs :: "string set"
  environ :: "string \<rightharpoonup> string"
  sessions :: "nat \<rightharpoonup> spark_session"
  context_conf :: "nat \<Rightarrow> string \<rightharpoonup> string"
  instantiated_session :: "nat option"
  active_spark_context :: "nat option"
  gateway :: "nat option"
  jvm :: "nat option"
  trace :: "event list"

type_synonym 'a py = "world \<Rightarrow> (exn + 'a) \<times> world"

definition ret :: "'a \<Rightarrow> 'a py" where
  "ret v w = (Inr v, w)"

definition raise :: "exn \<Rightarrow> 'a py" where
  "raise e w = (Inl e, w)"

definition seq :: "'a py \<Rightarrow> ('a \<Rightarrow> 'b py) \<Rightarrow> 'b py" where
  "seq m f w = (case m w of (Inl e, w') \<Rightarrow> (Inl e, w') | (Inr v, w') \<Rightarrow> f v w')"

text \<open>\<^verbatim>\<open>try: ... except AttributeError: pass\<close>\<close>

definition except_AttributeError :: "unit py \<Rightarrow> unit py" where
  "except_AttributeError m w =
     (case m w of (Inl (AttributeError a), w') \<Rightarrow> (Inr (), w') | r \<Rightarrow> r)"

text \<open>
  Inside the class body the identifier \<open>__spark\<close> is compiled to \<open>_NessieDemoSpark__spark\<close>;
  a string handed to \<open>delattr\<close> is not rewritten.
\<close>

definition mangle :: "string \<Rightarrow> string" where
  "mangle n = ''_NessieDemoSpark'' @ n"

definition getattr :: "nat \<Rightarrow> string \<Rightarrow> val py" where
  "getattr a n w =
     (case objs w a n of None \<Rightarrow> (Inl (AttributeError n), w) | Some v \<Rightarrow> (Inr v, w))"

definition setattr :: "nat \<Rightarrow> string \<Rightarrow> val \<Rightarrow> unit py" where
  "setattr a n v w = (Inr (), w\<lparr>objs := (objs w)(a := (objs w a)(n \<mapsto> v))\<rparr>)"

definition delattr :: "nat \<Rightarrow> string \<Rightarrow> unit py" where
  "delattr a n w =
     (case objs w a n of
        None \<Rightarrow> (Inl (AttributeError n), w)
      | Some v \<Rightarrow> (Inr (), w\<lparr>objs := (objs w)(a := (objs w a)(n := None))\<rparr>))"

definition alloc :: "nat py" where
  "alloc w = (Inr (next_id w), w\<lparr>next_id := Suc (next_id w)\<rparr>)"

definition print :: "string \<Rightarrow> unit py" where
  "print s w = (Inr (), w\<lparr>trace := trace w @ [Print s]\<rparr>)"

text \<open>An outside call is logged, then raises or returns as the surroundings decide.\<close>

definition call :: "ext \<Rightarrow> event \<Rightarrow> unit py" where
  "call x e w =
     (case raises x (trace w) e of
        Some err \<Rightarrow> (Inl err, w\<lparr>trace := trace w @ [e]\<rparr>)
      | None \<Rightarrow> (Inr (), w\<lparr>trace := trace w @ [e], fs := fs_effect x e (fs w)\<rparr>))"

definition os_path_exists :: "string \<Rightarrow> bool py" where
  "os_path_exists p w = (Inr (p \<in> fs w), w)"

definition os_path_join :: "string \<Rightarrow> string \<Rightarrow> string" where
  "os_path_join a b =
     (if b \<noteq> [] \<and> hd b = CHR ''/'' then b
      else if a = [] \<or> last a = CHR ''/'' then a @ b
      else a @ ''/'' @ b)"

definition os_environ_set :: "string \<Rightarrow> string \<Rightarrow> unit py" where
  "os_environ_set k v w = (Inr (), w\<lparr>environ := (environ w)(k \<mapsto> v)\<rparr>)"

text \<open>The methods of \<open>NessieDemo\<close> exist on a demo only.\<close>

definition as_demo :: "string \<Rightarrow> val \<Rightarrow> nessie_demo py" where
  "as_demo meth v = (case v of Demo d \<Rightarrow> ret d | _ \<Rightarrow> raise (AttributeError meth))"

section \<open>The pyspark calls the module makes\<close>

text \<open>
  \<open>SparkSession.builder.config(conf=conf).getOrCreate()\<close>: the instantiated session if
  there is one, else a new session on the active context, or on a new context (which
  starts the gateway unless one runs). The options are set on the session returned.
\<close>

definition builder_getOrCreate :: "ext \<Rightarrow> (string \<rightharpoonup> string) \<Rightarrow> val py" where
  "builder_getOrCreate x conf =
     seq (call x GetOrCreate) (\<lambda>_ w.
       case (case instantiated_session w of
               None \<Rightarrow> None
             | Some s \<Rightarrow> map_option (\<lambda>r. (s, r)) (sessions w s)) of
         Some (s, r) \<Rightarrow>
           (Inr (Session s), w\<lparr>sessions := (sessions w)(s \<mapsto> r\<lparr>s_conf := s_conf r ++ conf\<rparr>)\<rparr>)
       | None \<Rightarrow>
           (case active_spark_context w of
              Some c \<Rightarrow>
                (let s = next_id w in
                 (Inr (Session s),
                  w\<lparr>next_id := Suc s,
                    sessions := (sessions w)
                      (s \<mapsto> \<lparr>s_context = c, s_conf = context_conf w c ++ conf\<rparr>),
                    instantiated_session := Some s\<rparr>))
            | None \<Rightarrow>
                (let c = next_id w; s = Suc c; g = Suc s;
                     gw = (case gateway w of Some g' \<Rightarrow> g' | None \<Rightarrow> g) in
                 (Inr (Session s),
                  w\<lparr>next_id := Suc g,
                    context_conf := (context_conf w)(c := conf),
                    active_spark_context := Some c,
                    gateway := Some gw,
                    jvm := Some gw,
                    sessions := (sessions w)(s \<mapsto> \<lparr>s_context = c, s_conf = conf\<rparr>),
                    instantiated_session := Some s\<rparr>))))"

text \<open>The attribute \<open>sparkContext\<close> of a session.\<close>

definition sparkContext :: "val \<Rightarrow> val py" where
  "sparkContext v w =
     (case v of
        Session s \<Rightarrow>
          (case sessions w s of
             Some r \<Rightarrow> (Inr (Context (s_context r)), w)
           | None \<Rightarrow> (Inl (AttributeError ''sparkContext''), w))
      | _ \<Rightarrow> (Inl (AttributeError ''sparkContext''), w))"

text \<open>
  \<open>newSession()\<close>: a new session object on the same context, with a configuration of its
  own that starts from the context's.
\<close>

definition newSession :: "ext \<Rightarrow> val \<Rightarrow> val py" where
  "newSession x v =
     (case v of
        Session s \<Rightarrow>
          seq (call x (NewSession s)) (\<lambda>_ w.
            case sessions w s of
              None \<Rightarrow> (Inl (OtherError ''newSession''), w)
            | Some r \<Rightarrow>
                (Inr (Session (next_id w)),
                 w\<lparr>next_id := Suc (next_id w),
                   sessions := (sessions w)
                     (next_id w \<mapsto> \<lparr>s_context = s_context r,
                                   s_conf = context_conf w (s_context r)\<rparr>)\<rparr>))
      | _ \<Rightarrow> raise (AttributeError ''newSession''))"

text \<open>\<open>session.conf.set(key, value)\<close>\<close>

definition session_conf_set :: "ext \<Rightarrow> val \<Rightarrow> string \<Rightarrow> string \<Rightarrow> unit py" where
  "session_conf_set x v k u =
     (case v of
        Session s \<Rightarrow>
          seq (call x (ConfSet s k u)) (\<lambda>_ w.
            case sessions w s of
              None \<Rightarrow> (Inl (OtherError ''conf''), w)
            | Some r \<Rightarrow>
                (Inr (), w\<lparr>sessions := (sessions w)(s \<mapsto> r\<lparr>s_conf := (s_conf r)(k \<mapsto> u)\<rparr>)\<rparr>))
      | _ \<Rightarrow> raise (AttributeError ''conf''))"

text \<open>
  \<open>stop()\<close> goes to the class of the receiver. Stopping a session stops its context, and
  pyspark then forgets the active context and the instantiated session.
\<close>

definition stop :: "ext \<Rightarrow> val \<Rightarrow> unit py" where
  "stop x v =
     (case v of
        Session s \<Rightarrow>
          seq (call x (SessionStop s)) (\<lambda>_ w.
            (Inr (), w\<lparr>active_spark_context := None, instantiated_session := None\<rparr>))
      | Context c \<Rightarrow>
          seq (call x (ContextStop c)) (\<lambda>_ w. (Inr (), w\<lparr>active_spark_context := None\<rparr>))
      | Demo d \<Rightarrow> call x (DemoStop (demo_id d))
      | Jvm j \<Rightarrow> raise (AttributeError ''stop''))"

text \<open>\<open>java_import(jvm, name)\<close>\<close>

definition java_import :: "ext \<Rightarrow> val \<Rightarrow> string \<Rightarrow> unit py" where
  "java_import x v n =
     (case v of Jvm j \<Rightarrow> call x (JavaImport j n) | _ \<Rightarrow> raise (AttributeError ''jvm''))"

section \<open>The class NessieDemoSpark\<close>

text \<open>Lines 59 to 62 of \<open>__init__\<close>: the directory name, or the exception.\<close>

definition derive_dir_name :: "string \<Rightarrow> string py" where
  "derive_dir_name spark_url =
     (case re_match spark_url of
        None \<Rightarrow> raise (Exception (''Invalid Spark download URL '' @ spark_url))
      | Some n \<Rightarrow> ret n)"

text \<open>\<open>self.__demo\<close>, read for a call of the method \<open>meth\<close>.\<close>

definition self_demo :: "nat \<Rightarrow> string \<Rightarrow> nessie_demo py" where
  "self_demo self meth = seq (getattr self (mangle ''__demo'')) (as_demo meth)"

definition NessieDemoSpark_init :: "ext \<Rightarrow> nat \<Rightarrow> nessie_demo \<Rightarrow> unit py" where
  "NessieDemoSpark_init x self demo =
     seq (setattr self (mangle ''__demo'') (Demo demo)) (\<lambda>_.
     seq (self_demo self ''_get_versions_dict'') (\<lambda>d0.
     let spark_url = spark_tarball d0 in
     seq (derive_dir_name spark_url) (\<lambda>dir_name.
     seq (self_demo self ''_asset_dir'') (\<lambda>d1.
     let spark_dir = asset_dir d1 dir_name in
     seq (os_path_exists spark_dir) (\<lambda>dir_exists.
     seq (if \<not> dir_exists then
            seq (self_demo self ''_asset_dir'') (\<lambda>d2.
            let tgz = asset_dir d2 (dir_name @ ''.tgz'') in
            seq (os_path_exists tgz) (\<lambda>tgz_exists.
            seq (if \<not> tgz_exists then call x (Wget spark_url tgz) else ret ()) (\<lambda>_.
            call x (ExecFail [''tar'', ''-x'', ''-C'',
                              abspath x (os_path_join spark_dir ''..''), ''-f'', tgz]))))
          else ret ()) (\<lambda>_.
     seq (print (''Using Spark in '' @ spark_dir)) (\<lambda>_.
     seq (os_environ_set ''SPARK_HOME'' spark_dir) (\<lambda>_.
     call x FindsparkInit))))))))"

text \<open>\<open>NessieDemoSpark(demo)\<close>: a new instance with no attribute, then \<open>__init__\<close>.\<close>

definition NessieDemoSpark_new :: "ext \<Rightarrow> nessie_demo \<Rightarrow> nat py" where
  "NessieDemoSpark_new x demo =
     seq alloc (\<lambda>self.
     seq (\<lambda>w. (Inr (), w\<lparr>objs := (objs w)(self := Map.empty)\<rparr>)) (\<lambda>_.
     seq (NessieDemoSpark_init x self demo) (\<lambda>_.
     ret self)))"

definition spark_conf :: "ext \<Rightarrow> nat \<Rightarrow> string \<Rightarrow> (string \<rightharpoonup> string) py" where
  "spark_conf x self nessie_ref =
     (let conf = conf_defaults x in
      seq (self_demo self ''_asset_dir'') (\<lambda>d0.
      let spark_warehouse = ''file://'' @ asset_dir d0 ''spark_warehouse'' in
      seq (self_demo self ''get_iceberg_version'') (\<lambda>d1.
      let spark_jars = ''org.apache.iceberg:iceberg-spark3-runtime:'' @ iceberg_version d1 in
      let conf = conf(''spark.jars.packages'' \<mapsto> spark_jars) in
      let conf = conf(''spark.sql.execution.pyarrow.enabled'' \<mapsto> ''true'') in
      let conf = conf(''spark.sql.catalog.nessie.warehouse'' \<mapsto> spark_warehouse) in
      seq (self_demo self ''get_nessie_api_uri'') (\<lambda>d2.
      let conf = conf(''spark.sql.catalog.nessie.url'' \<mapsto> nessie_api_uri d2) in
      let conf = conf(''spark.sql.catalog.nessie.ref'' \<mapsto> nessie_ref) in
      let conf = conf(''spark.sql.catalog.nessie.catalog-impl'' \<mapsto>
                        ''org.apache.iceberg.nessie.NessieCatalog'') in
      let conf = conf(''spark.sql.catalog.nessie.auth_type'' \<mapsto> ''NONE'') in
      let conf = conf(''spark.sql.catalog.nessie.cache-enabled'' \<mapsto> ''false'') in
      let conf = conf(''spark.sql.catalog.nessie'' \<mapsto> ''org.apache.iceberg.spark.SparkCatalog'') in
      let conf = conf(''spark.sql.catalog.spark_catalog'' \<mapsto>
                        ''org.apache.iceberg.spark.SparkSessionCatalog'') in
      ret conf))))"

text \<open>\<open>spark_context._gateway.jvm\<close> reads the gateway that the class \<open>SparkContext\<close> holds.\<close>

definition jvm_for_iceberg :: "ext \<Rightarrow> val \<Rightarrow> val py" where
  "jvm_for_iceberg x spark_context =
     seq (\<lambda>w. case spark_context of
                 Context c \<Rightarrow>
                   (case gateway w of
                      Some g \<Rightarrow> (Inr (Jvm g), w)
                    | None \<Rightarrow> (Inl (AttributeError ''jvm''), w))
               | _ \<Rightarrow> (Inl (AttributeError ''_gateway''), w)) (\<lambda>j.
     seq (java_import x j ''org.apache.iceberg.CatalogUtil'') (\<lambda>_.
     seq (java_import x j ''org.apache.iceberg.catalog.TableIdentifier'') (\<lambda>_.
     seq (java_import x j ''org.apache.iceberg.Schema'') (\<lambda>_.
     seq (java_import x j ''org.apache.iceberg.types.Types'') (\<lambda>_.
     seq (java_import x j ''org.apache.iceberg.PartitionSpec'') (\<lambda>_.
     ret j))))))"

definition get_or_create_spark_context :: "ext \<Rightarrow> nat \<Rightarrow> string \<Rightarrow> (val \<times> val \<times> val) py" where
  "get_or_create_spark_context x self nessie_ref =
     seq (print ''Creating SparkConf, SparkSession, SparkContext ...'') (\<lambda>_.
     seq (spark_conf x self nessie_ref) (\<lambda>conf.
     seq (builder_getOrCreate x conf) (\<lambda>s.
     seq (setattr self (mangle ''__spark'') s) (\<lambda>_.
     seq (seq (getattr self (mangle ''__spark'')) sparkContext) (\<lambda>c.
     seq (setattr self (mangle ''__spark_context'') c) (\<lambda>_.
     seq (seq (getattr self (mangle ''__spark_context'')) (jvm_for_iceberg x)) (\<lambda>j.
     seq (setattr self (mangle ''__jvm'') j) (\<lambda>_.
     seq (print ''Created SparkConf, SparkSession, SparkContext'') (\<lambda>_.
     seq (getattr self (mangle ''__spark'')) (\<lambda>r1.
     seq (getattr self (mangle ''__spark_context'')) (\<lambda>r2.
     seq (getattr self (mangle ''__jvm'')) (\<lambda>r3.
     ret (r1, r2, r3)))))))))))))"

definition session_for_ref :: "ext \<Rightarrow> nat \<Rightarrow> string \<Rightarrow> val py" where
  "session_for_ref x self nessie_ref =
     seq (seq (getattr self (mangle ''__spark'')) (newSession x)) (\<lambda>new_session.
     seq (session_conf_set x new_session ''spark.sql.catalog.nessie.ref'' nessie_ref) (\<lambda>_.
     ret new_session))"

text \<open>
  \<open>SparkContext._active_spark_context.stop()\<close> and \<open>SparkContext._gateway.shutdown()\<close>:
  on \<open>None\<close> the attribute lookup raises \<open>AttributeError\<close>.
\<close>

definition active_spark_context_stop :: "ext \<Rightarrow> unit py" where
  "active_spark_context_stop x w =
     (case active_spark_context w of
        None \<Rightarrow> (Inl (AttributeError ''stop''), w)
      | Some c \<Rightarrow> stop x (Context c) w)"

definition gateway_shutdown :: "ext \<Rightarrow> unit py" where
  "gateway_shutdown x w =
     (case gateway w of
        None \<Rightarrow> (Inl (AttributeError ''shutdown''), w)
      | Some g \<Rightarrow> call x (GatewayShutdown g) w)"

definition dispose :: "ext \<Rightarrow> nat \<Rightarrow> unit py" where
  "dispose x self =
     seq (except_AttributeError (
            seq (getattr self (mangle ''__spark'')) (\<lambda>spark_sess.
            seq (print ''Stopping SparkSession ...'') (\<lambda>_.
            seq (stop x spark_sess) (\<lambda>_.
            seq (delattr self ''__spark'') (\<lambda>_.
            seq (delattr self ''__spark_context'') (\<lambda>_.
            seq (delattr self ''__jvm'') (\<lambda>_.
            seq (active_spark_context_stop x) (\<lambda>_.
            seq (gateway_shutdown x) (\<lambda>_.
            seq (\<lambda>w. (Inr (), w\<lparr>gateway := None\<rparr>)) (\<lambda>_.
            (\<lambda>w. (Inr (), w\<lparr>jvm := None\<rparr>))))))))))))) (\<lambda>_.
     except_AttributeError (
            seq (seq (getattr self (mangle ''__demo'')) (stop x)) (\<lambda>_.
            delattr self ''__demo'')))"

section \<open>The module-level registry\<close>

definition spark_dispose :: "ext \<Rightarrow> unit py" where
  "spark_dispose x w =
     (case registry w of
        Some m \<Rightarrow> seq (dispose x m) (\<lambda>_ w'. (Inr (), w'\<lparr>registry := None\<rparr>)) w
      | None \<Rightarrow> (Inr (), w))"

definition spark_for_demo :: "ext \<Rightarrow> nessie_demo \<Rightarrow> string \<Rightarrow> (val \<times> val \<times> val \<times> nat) py" where
  "spark_for_demo x demo nessie_ref =
     seq (spark_dispose x) (\<lambda>_.
     seq (NessieDemoSpark_new x demo) (\<lambda>demo_spark.
     seq (\<lambda>w. (Inr (), w\<lparr>registry := Some demo_spark\<rparr>)) (\<lambda>_.
     seq (get_or_create_spark_context x demo_spark nessie_ref) (\<lambda>(spark, sc, j).
     ret (spark, sc, j, demo_spark)))))"

section \<open>The configuration keys the specification lists\<close>


section \<open>Concrete surroundings for running the module\<close>

text \<open>Surroundings in which no outside call raises and a new \<open>SparkConf()\<close> is empty.\<close>

definition ex_ext :: ext where
  "ex_ext = \<lparr>raises = (\<lambda>_ _. None), fs_effect = (\<lambda>_ s. s), abspath = (\<lambda>p. p),
             conf_defaults = Map.empty\<rparr>"

definition ex_demo :: "nat \<Rightarrow> string \<Rightarrow> nessie_demo" where
  "ex_demo i url = \<lparr>demo_id = i, spark_tarball = url, asset_dir = (\<lambda>n. ''/assets/'' @ n),
                    iceberg_version = ''0.11.0'',
                    nessie_api_uri = ''http://localhost:19120/api/v1''\<rparr>"

text \<open>A fresh interpreter: no instance, an empty registry, the given files, no call made.\<close>

definition ex_world :: "string set \<Rightarrow> world" where
  "ex_world files = \<lparr>objs = (\<lambda>_. Map.empty), next_id = 0, registry = None, fs = files,
                     environ = Map.empty, sessions = Map.empty,
                     context_conf = (\<lambda>_. Map.empty), instantiated_session = None,
                     active_spark_context = None, gateway = None, jvm = None, trace = []\<rparr>"

definition ex_url :: string where
  "ex_url = ''https://example.org/dist/spark-3.2.1-bin-hadoop3.2.tgz''"

definition ex_dir :: string where
  "ex_dir = ''/assets/spark-3.2.1-bin-hadoop3.2''"

text \<open>A manager and its session, made the way a caller makes them.\<close>

definition ex_manager_with_session :: "nat py" where
  "ex_manager_with_session =
     seq (NessieDemoSpark_new ex_ext (ex_demo 7 ex_url)) (\<lambda>m.
     seq (get_or_create_spark_context ex_ext m ''main'') (\<lambda>_. ret m))"

section \<open>Observing a run\<close>

text \<open>The outside calls a step added to the log.\<close>

definition new_events :: "world \<Rightarrow> world \<Rightarrow> event list" where
  "new_events w w' = drop (length (trace w)) (trace w')"

text \<open>A download is a call of \<open>_Util.wget\<close>, an extraction a call of \<open>_Util.exec_fail\<close>.\<close>

definition is_download :: "event \<Rightarrow> bool" where
  "is_download e = (case e of Wget u t \<Rightarrow> True | _ \<Rightarrow> False)"

definition is_extract :: "event \<Rightarrow> bool" where
  "is_extract e = (case e of ExecFail a \<Rightarrow> True | _ \<Rightarrow> False)"

text \<open>The state right after a new instance got its \<open>__demo\<close> field.\<close>

definition constructed :: "nessie_demo \<Rightarrow> world \<Rightarrow> world" where
  "constructed demo w =
     w\<lparr>next_id := Suc (next_id w),
       objs := (objs w)(next_id w := [mangle ''__demo'' \<mapsto> Demo demo])\<rparr>"

text \<open>The key of the catalog reference, as \<open>session_for_ref\<close> writes it.\<close>

definition ref_key :: string where
  "ref_key = ''spark.sql.catalog.nessie.ref''"

text \<open>Identities handed out so far lie below the counter.\<close>

definition wf_sessions :: "world \<Rightarrow> bool" where
  "wf_sessions w \<longleftrightarrow> (\<forall>s. sessions w s \<noteq> None \<longrightarrow> s < next_id w)"

text \<open>What a step leaves alone when it only logs calls and touches files or the environment.\<close>

definition frame :: "world \<Rightarrow> world \<Rightarrow> bool" where
  "frame w w' \<longleftrightarrow> objs w' = objs w \<and> next_id w' = next_id w \<and> registry w' = registry w
     \<and> sessions w' = sessions w \<and> context_conf w' = context_conf w
     \<and> instantiated_session w' = instantiated_session w
     \<and> active_spark_context w' = active_spark_context w
     \<and> gateway w' = gateway w \<and> jvm w' = jvm w \<and> prefix (trace w) (trace w')"

definition keeps :: "'a py \<Rightarrow> bool" where
  "keeps m \<longleftrightarrow> (\<forall>w. frame w (snd (m w)))"

text \<open>
  What every step of the class respects: the registry is written by the module-level functions
  only, identities are never reused, and the log only grows.
\<close>

definition grows :: "world \<Rightarrow> world \<Rightarrow> bool" where
  "grows w w' \<longleftrightarrow> registry w' = registry w \<and> next_id w \<le> next_id w'
     \<and> prefix (trace w) (trace w')"

definition mono :: "'a py \<Rightarrow> bool" where
  "mono m \<longleftrightarrow> (\<forall>w. grows w (snd (m w)))"

section \<open>More concrete runs\<close>

text \<open>The state after construction, and after the session was created for \<open>main\<close>.\<close>

definition ex_constructed :: world where
  "ex_constructed = snd (NessieDemoSpark_new ex_ext (ex_demo 7 ex_url) (ex_world {ex_dir}))"

definition ex_with_session :: world where
  "ex_with_session = snd (get_or_create_spark_context ex_ext 0 ''main'' ex_constructed)"

text \<open>The states after a first and a second call of \<open>spark_for_demo\<close>.\<close>

definition ex_first :: world where
  "ex_first = snd (spark_for_demo ex_ext (ex_demo 7 ex_url) ''main'' (ex_world {ex_dir}))"

definition ex_second :: world where
  "ex_second = snd (spark_for_demo ex_ext (ex_demo 8 ex_url) ''main'' ex_first)"

text \<open>Surroundings in which the session builder fails.\<close>

definition ex_ext_failing :: ext where
  "ex_ext_failing =
     ex_ext\<lparr>raises := (\<lambda>_ e. case e of GetOrCreate \<Rightarrow> Some (OtherError ''no JVM'') | _ \<Rightarrow> None)\<rparr>"

section \<open>Unfolding sets\<close>

lemmas py_defs = ret_def raise_def seq_def except_AttributeError_def mangle_def getattr_def
  setattr_def delattr_def alloc_def print_def call_def os_path_exists_def os_path_join_def
  os_environ_set_def as_demo_def self_demo_def derive_dir_name_def Let_def

lemmas spark_defs = builder_getOrCreate_def sparkContext_def newSession_def session_conf_set_def
  stop_def java_import_def jvm_for_iceberg_def active_spark_context_stop_def gateway_shutdown_def

lemmas ex_defs = ex_ext_def ex_demo_def ex_world_def ex_url_def ex_dir_def name_char_def
  dot_char_def

section \<open>The pattern finds exactly the names followed by the suffix\<close>

lemma match_name_rest_sound:
  "match_name_rest s = Some n \<Longrightarrow> (\<forall>c\<in>set n. name_char c) \<and> (\<exists>rest. s = n @ ''.tgz'' @ rest)"
proof (induction s arbitrary: n)
  case Nil
  then show ?case by simp
next
  case (Cons c cs)
  show ?case
  proof (cases "name_char c \<and> match_name_rest cs \<noteq> None")
    case True
    then obtain m where m: "match_name_rest cs = Some m" by auto
    with True Cons.prems have n: "n = c # m" by simp
    from Cons.IH [OF m] True show ?thesis unfolding n by auto
  next
    case False
    with Cons.prems have "prefix ''.tgz'' (c # cs)" and "n = []"
      by (auto split: if_splits option.splits)
    then show ?thesis by (auto simp: prefix_def)
  qed
qed

lemma match_name_sound:
  assumes a: "match_name s = Some n"
  shows "n \<noteq> [] \<and> (\<forall>c\<in>set n. name_char c) \<and> (\<exists>rest. s = n @ ''.tgz'' @ rest)"
proof (cases s)
  case Nil
  with a show ?thesis by simp
next
  case (Cons c cs)
  with a obtain m where c: "name_char c" and m: "match_name_rest cs = Some m" and n: "n = c # m"
    by (auto split: if_splits)
  from match_name_rest_sound [OF m] c show ?thesis unfolding n Cons by auto
qed

lemma re_match_sound:
  "re_match u = Some n \<Longrightarrow>
     \<exists>pre rest. u = pre @ ''/'' @ n @ ''.tgz'' @ rest \<and> (\<forall>c\<in>set pre. dot_char c)
       \<and> n \<noteq> [] \<and> (\<forall>c\<in>set n. name_char c)"
proof (induction u)
  case Nil
  then show ?case by simp
next
  case (Cons c cs)
  show ?case
  proof (cases "dot_char c \<and> re_match cs \<noteq> None")
    case True
    then obtain m where m: "re_match cs = Some m" by auto
    with True Cons.prems have "m = n" by simp
    with Cons.IH m obtain pre rest where
      "cs = pre @ ''/'' @ n @ ''.tgz'' @ rest" "\<forall>c\<in>set pre. dot_char c"
      "n \<noteq> []" "\<forall>c\<in>set n. name_char c" by blast
    with True have "c # cs = (c # pre) @ ''/'' @ n @ ''.tgz'' @ rest \<and> (\<forall>a\<in>set (c # pre). dot_char a)
       \<and> n \<noteq> [] \<and> (\<forall>c\<in>set n. name_char c)" by simp
    then show ?thesis by blast
  next
    case False
    with Cons.prems have c: "c = CHR ''/''" and mn: "match_name cs = Some n"
      by (auto split: if_splits option.splits)
    from match_name_sound [OF mn] obtain rest where
      "cs = n @ ''.tgz'' @ rest" "n \<noteq> []" "\<forall>c\<in>set n. name_char c" by blast
    with c have "c # cs = [] @ ''/'' @ n @ ''.tgz'' @ rest \<and> (\<forall>a\<in>set ([]::string). dot_char a)
       \<and> n \<noteq> [] \<and> (\<forall>c\<in>set n. name_char c)" by simp
    then show ?thesis by blast
  qed
qed

lemma match_name_rest_complete:
  "\<forall>c\<in>set n. name_char c \<Longrightarrow> match_name_rest (n @ ''.tgz'' @ rest) \<noteq> None"
  by (induction n) (auto split: option.splits)

lemma match_name_complete:
  "n \<noteq> [] \<Longrightarrow> \<forall>c\<in>set n. name_char c \<Longrightarrow> match_name (n @ ''.tgz'' @ rest) \<noteq> None"
  using match_name_rest_complete by (cases n) auto

lemma re_match_complete:
  "\<forall>c\<in>set pre. dot_char c \<Longrightarrow> n \<noteq> [] \<Longrightarrow> \<forall>c\<in>set n. name_char c \<Longrightarrow>
     re_match (pre @ ''/'' @ n @ ''.tgz'' @ rest) \<noteq> None"
proof (induction pre)
  case Nil
  from match_name_complete [OF Nil(2,3)] show ?case
    by (auto split: option.splits)
next
  case (Cons a pre)
  then show ?case by (auto split: option.splits)
qed

lemmas run_defs = ret_def raise_def seq_def mangle_def getattr_def setattr_def alloc_def
  print_def call_def os_path_exists_def os_environ_set_def as_demo_def self_demo_def
  derive_dir_name_def Let_def

section \<open>Sequencing and the primitive steps\<close>

lemma seq_Inr:
  "seq m f w = (Inr v, w') \<longleftrightarrow> (\<exists>u w1. m w = (Inr u, w1) \<and> f u w1 = (Inr v, w'))"
  by (auto simp: seq_def split: prod.splits sum.splits)

lemma seq_InrE:
  assumes "seq m f w = (Inr v, w')"
  obtains u w1 where "m w = (Inr u, w1)" and "f u w1 = (Inr v, w')"
  using assms by (auto simp: seq_Inr)

lemma print_Inr: "print s w = (Inr u, w') \<longleftrightarrow> w' = w\<lparr>trace := trace w @ [Print s]\<rparr>"
  by (auto simp: print_def)

lemma setattr_Inr:
  "setattr a n v w = (Inr u, w') \<longleftrightarrow> w' = w\<lparr>objs := (objs w)(a := (objs w a)(n \<mapsto> v))\<rparr>"
  by (auto simp: setattr_def)

lemma getattr_Inr: "getattr a n w = (Inr v, w') \<longleftrightarrow> objs w a n = Some v \<and> w' = w"
  by (auto simp: getattr_def split: option.splits)

lemma ret_Inr: "ret v w = (Inr u, w') \<longleftrightarrow> u = v \<and> w' = w"
  by (auto simp: ret_def)

lemma sparkContext_Inr:
  "sparkContext v w = (Inr c, w') \<longleftrightarrow>
     (\<exists>sid rb. v = Session sid \<and> sessions w sid = Some rb \<and> c = Context (s_context rb) \<and> w' = w)"
  by (auto simp: sparkContext_def split: val.splits option.splits)

section \<open>Steps that only log\<close>

lemma frame_refl: "frame w w"
  by (simp add: frame_def)

lemma frame_trans: "frame a b \<Longrightarrow> frame b c \<Longrightarrow> frame a c"
  by (auto simp: frame_def)

lemma keeps_seq:
  assumes m: "keeps m" and f: "\<And>v. keeps (f v)"
  shows "keeps (seq m f)"
  unfolding keeps_def
proof
  fix w
  obtain r w1 where mw: "m w = (r, w1)" by (cases "m w")
  from m have f1: "frame w w1" using mw unfolding keeps_def by (metis snd_conv)
  show "frame w (snd (seq m f w))"
  proof (cases r)
    case (Inl e)
    with mw f1 show ?thesis by (simp add: seq_def)
  next
    case (Inr v)
    from f [of v] have "frame w1 (snd (f v w1))" unfolding keeps_def by blast
    with f1 have "frame w (snd (f v w1))" by (rule frame_trans)
    with mw Inr show ?thesis by (simp add: seq_def)
  qed
qed

lemma keeps_ret: "keeps (ret v)"
  by (simp add: keeps_def ret_def frame_refl)

lemma keeps_raise: "keeps (raise e)"
  by (simp add: keeps_def raise_def frame_refl)

lemma keeps_if: "keeps a \<Longrightarrow> keeps b \<Longrightarrow> keeps (if c then a else b)"
  by simp

lemma keeps_call: "keeps (call x e)"
  by (simp add: keeps_def call_def frame_def split: option.splits)

lemma keeps_print: "keeps (print s)"
  by (simp add: keeps_def print_def frame_def)

lemma keeps_getattr: "keeps (getattr a n)"
  by (simp add: keeps_def getattr_def frame_refl split: option.splits)

lemma keeps_as_demo: "keeps (as_demo n v)"
  by (cases v) (simp_all add: as_demo_def keeps_ret keeps_raise)

lemma keeps_self_demo: "keeps (self_demo a n)"
  unfolding self_demo_def by (intro keeps_seq keeps_getattr keeps_as_demo)

lemma keeps_exists: "keeps (os_path_exists p)"
  by (simp add: keeps_def os_path_exists_def frame_refl)

lemma keeps_environ: "keeps (os_environ_set k v)"
  by (simp add: keeps_def os_environ_set_def frame_def)

lemma keeps_derive: "keeps (derive_dir_name u)"
  by (simp add: derive_dir_name_def keeps_ret keeps_raise split: option.splits)

lemmas keeps_intros = keeps_seq keeps_ret keeps_raise keeps_if keeps_call keeps_print
  keeps_getattr keeps_as_demo keeps_self_demo keeps_exists keeps_environ keeps_derive

lemma keepsD: "keeps m \<Longrightarrow> m w = (r, w') \<Longrightarrow> frame w w'"
  by (metis keeps_def snd_conv)

lemma keeps_spark_conf: "keeps (spark_conf x self r)"
  unfolding spark_conf_def Let_def by (intro keeps_intros)

lemma keeps_java_import: "keeps (java_import x v n)"
  by (cases v) (simp_all add: java_import_def keeps_call keeps_raise)

lemma keeps_jvm_for_iceberg: "keeps (jvm_for_iceberg x c)"
proof -
  have "keeps (\<lambda>w. case c of
                 Context c \<Rightarrow>
                   (case gateway w of
                      Some g \<Rightarrow> (Inr (Jvm g), w)
                    | None \<Rightarrow> (Inl (AttributeError ''jvm''), w))
               | _ \<Rightarrow> (Inl (AttributeError ''_gateway''), w))"
    by (simp add: keeps_def frame_refl split: val.splits option.splits)
  then show ?thesis
    unfolding jvm_for_iceberg_def by (intro keeps_intros keeps_java_import)
qed

lemma keeps_sparkContext: "keeps (sparkContext v)"
  by (simp add: keeps_def sparkContext_def frame_refl split: val.splits option.splits)

section \<open>The registry, the identities and the log under every step\<close>

lemma grows_refl: "grows w w"
  by (simp add: grows_def)

lemma grows_trans: "grows a b \<Longrightarrow> grows b c \<Longrightarrow> grows a c"
  by (auto simp: grows_def)

lemma frame_grows: "frame w w' \<Longrightarrow> grows w w'"
  by (simp add: frame_def grows_def)

lemma keeps_mono: "keeps m \<Longrightarrow> mono m"
  by (simp add: keeps_def mono_def frame_grows)

lemma monoD: "mono m \<Longrightarrow> m w = (r, w') \<Longrightarrow> grows w w'"
  by (metis mono_def snd_conv)

lemma mono_seq:
  assumes m: "mono m" and f: "\<And>v. mono (f v)"
  shows "mono (seq m f)"
  unfolding mono_def
proof
  fix w
  obtain r w1 where mw: "m w = (r, w1)" by (cases "m w")
  from monoD [OF m mw] have f1: "grows w w1" .
  show "grows w (snd (seq m f w))"
  proof (cases r)
    case (Inl e)
    with mw f1 show ?thesis by (simp add: seq_def)
  next
    case (Inr v)
    from f [of v] have "grows w1 (snd (f v w1))" unfolding mono_def by blast
    with f1 have "grows w (snd (f v w1))" by (rule grows_trans)
    with mw Inr show ?thesis by (simp add: seq_def)
  qed
qed

lemma mono_ret: "mono (ret v)"
  by (simp add: keeps_mono keeps_ret)

lemma mono_raise: "mono (raise e)"
  by (simp add: keeps_mono keeps_raise)

lemma mono_if: "mono a \<Longrightarrow> mono b \<Longrightarrow> mono (if c then a else b)"
  by simp

lemma mono_call: "mono (call x e)"
  by (simp add: keeps_mono keeps_call)

lemma mono_print: "mono (print s)"
  by (simp add: keeps_mono keeps_print)

lemma mono_getattr: "mono (getattr a n)"
  by (simp add: keeps_mono keeps_getattr)

lemma mono_self_demo: "mono (self_demo a n)"
  by (simp add: keeps_mono keeps_self_demo)

lemma mono_setattr: "mono (setattr a n v)"
  by (simp add: mono_def setattr_def grows_def)

lemma mono_delattr: "mono (delattr a n)"
  by (simp add: mono_def delattr_def grows_def split: option.splits)

lemma mono_except: "mono m \<Longrightarrow> mono (except_AttributeError m)"
  unfolding mono_def except_AttributeError_def
  by (auto split: prod.splits sum.splits exn.splits) (metis snd_conv)+

lemma mono_builder: "mono (builder_getOrCreate x conf)"
  unfolding builder_getOrCreate_def
  apply (rule mono_seq [OF mono_call])
  apply (simp add: mono_def grows_def Let_def split: option.splits prod.splits)
  done

lemma mono_newSession: "mono (newSession x v)"
proof (cases v)
  case (Session s)
  show ?thesis
    unfolding newSession_def Session val.case
    apply (rule mono_seq [OF mono_call])
    apply (simp add: mono_def grows_def split: option.splits)
    done
qed (simp_all add: newSession_def mono_raise)

lemma mono_session_conf_set: "mono (session_conf_set x v k u)"
proof (cases v)
  case (Session s)
  show ?thesis
    unfolding session_conf_set_def Session val.case
    apply (rule mono_seq [OF mono_call])
    apply (simp add: mono_def grows_def split: option.splits)
    done
qed (simp_all add: session_conf_set_def mono_raise)

lemma mono_stop: "mono (stop x v)"
proof (cases v)
  case (Session s)
  show ?thesis
    unfolding stop_def Session val.case
    apply (rule mono_seq [OF mono_call])
    apply (simp add: mono_def grows_def)
    done
next
  case (Context c)
  show ?thesis
    unfolding stop_def Context val.case
    apply (rule mono_seq [OF mono_call])
    apply (simp add: mono_def grows_def)
    done
qed (simp_all add: stop_def mono_raise mono_call)

lemmas mono_intros = mono_seq mono_ret mono_raise mono_if mono_call mono_print mono_getattr
  mono_self_demo mono_setattr mono_delattr mono_except mono_builder mono_newSession
  mono_session_conf_set mono_stop keeps_mono [OF keeps_spark_conf]
  keeps_mono [OF keeps_jvm_for_iceberg] keeps_mono [OF keeps_sparkContext]

lemma mono_get_or_create: "mono (get_or_create_spark_context x self r)"
  unfolding get_or_create_spark_context_def by (intro mono_intros)

lemma mono_active_stop: "mono (active_spark_context_stop x)"
  unfolding mono_def active_spark_context_stop_def
  using mono_stop [unfolded mono_def] by (auto simp: grows_refl split: option.splits)

lemma mono_gateway_shutdown: "mono (gateway_shutdown x)"
  unfolding mono_def gateway_shutdown_def
  using mono_call [unfolded mono_def] by (auto simp: grows_refl split: option.splits)

lemma mono_dispose: "mono (dispose x self)"
proof -
  have a: "mono (\<lambda>w. (Inr (), w\<lparr>gateway := None\<rparr>))"
    by (simp add: mono_def grows_def)
  have b: "mono (\<lambda>w. (Inr (), w\<lparr>jvm := None\<rparr>))"
    by (simp add: mono_def grows_def)
  show ?thesis
    unfolding dispose_def
    by (intro mono_intros mono_active_stop mono_gateway_shutdown a b)
qed

section \<open>Construction\<close>

lemma init_shape:
  "\<exists>G. keeps G \<and> NessieDemoSpark_init x self demo
         = seq (setattr self (mangle ''__demo'') (Demo demo)) (\<lambda>_. G)"
  unfolding NessieDemoSpark_init_def Let_def
  by (rule exI, rule conjI [rotated], rule refl) (intro keeps_intros)

lemma new_effect:
  assumes a: "NessieDemoSpark_new x demo w = (r, w')"
  shows "frame (constructed demo w) w'" and "\<And>m. r = Inr m \<Longrightarrow> m = next_id w"
proof -
  obtain G where G: "keeps G" and
    i: "NessieDemoSpark_init x (next_id w) demo
         = seq (setattr (next_id w) (mangle ''__demo'') (Demo demo)) (\<lambda>_. G)"
    using init_shape by blast
  have k: "keeps (seq G (\<lambda>_. ret (next_id w)))"
    using G by (intro keeps_intros)
  have "NessieDemoSpark_new x demo w = seq G (\<lambda>_. ret (next_id w)) (constructed demo w)"
    by (simp add: NessieDemoSpark_new_def i seq_def alloc_def setattr_def constructed_def)
  with a have e: "seq G (\<lambda>_. ret (next_id w)) (constructed demo w) = (r, w')" by simp
  from keepsD [OF k e] show "frame (constructed demo w) w'" .
  show "\<And>m. r = Inr m \<Longrightarrow> m = next_id w"
    using e by (auto simp: seq_Inr ret_def)
qed

lemma new_events_dir_present:
  assumes "re_match (spark_tarball demo) = Some n" and "asset_dir demo n \<in> fs w"
  shows "new_events w (snd (NessieDemoSpark_new x demo w))
           = [Print (''Using Spark in '' @ asset_dir demo n), FindsparkInit]"
  using assms
  by (simp add: NessieDemoSpark_new_def NessieDemoSpark_init_def run_defs new_events_def
      split: option.splits)

lemma new_events_archive_present:
  assumes "re_match (spark_tarball demo) = Some n" and "asset_dir demo n \<notin> fs w"
    and "asset_dir demo (n @ ''.tgz'') \<in> fs w"
  shows "\<exists>rest. new_events w (snd (NessieDemoSpark_new x demo w))
           = ExecFail [''tar'', ''-x'', ''-C'', abspath x (os_path_join (asset_dir demo n) ''..''),
                       ''-f'', asset_dir demo (n @ ''.tgz'')] # rest
           \<and> \<not> list_ex is_download rest"
  using assms
  by (simp add: NessieDemoSpark_new_def NessieDemoSpark_init_def run_defs new_events_def
      is_download_def split: option.splits)

lemma new_events_nothing_present:
  assumes "re_match (spark_tarball demo) = Some n" and "asset_dir demo n \<notin> fs w"
    and "asset_dir demo (n @ ''.tgz'') \<notin> fs w"
  shows "\<exists>rest. new_events w (snd (NessieDemoSpark_new x demo w))
           = Wget (spark_tarball demo) (asset_dir demo (n @ ''.tgz'')) # rest
           \<and> (raises x (trace w) (Wget (spark_tarball demo) (asset_dir demo (n @ ''.tgz''))) = None
               \<longrightarrow> (\<exists>rest'. rest = ExecFail [''tar'', ''-x'', ''-C'',
                       abspath x (os_path_join (asset_dir demo n) ''..''),
                       ''-f'', asset_dir demo (n @ ''.tgz'')] # rest'))"
  using assms
  by (simp add: NessieDemoSpark_new_def NessieDemoSpark_init_def run_defs new_events_def
      split: option.splits)

lemma ex_constructed_run:
  "NessieDemoSpark_new ex_ext (ex_demo 7 ex_url) (ex_world {ex_dir}) = (Inr 0, ex_constructed)"
proof -
  have "fst (NessieDemoSpark_new ex_ext (ex_demo 7 ex_url) (ex_world {ex_dir})) = Inr 0"
    by (simp add: NessieDemoSpark_new_def NessieDemoSpark_init_def py_defs ex_defs)
  then show ?thesis unfolding ex_constructed_def by (metis prod.collapse)
qed

lemma ex_constructed_eq:
  "ex_constructed = (ex_world {ex_dir})
     \<lparr>objs := (\<lambda>_. Map.empty)(0 := [mangle ''__demo'' \<mapsto> Demo (ex_demo 7 ex_url)]),
      next_id := 1,
      environ := [''SPARK_HOME'' \<mapsto> ex_dir],
      trace := [Print ''Using Spark in /assets/spark-3.2.1-bin-hadoop3.2'', FindsparkInit]\<rparr>"
  unfolding ex_constructed_def
  by (simp add: NessieDemoSpark_new_def NessieDemoSpark_init_def py_defs ex_defs)

section \<open>Creating the session\<close>

lemma spark_conf_ref:
  assumes "spark_conf x self r w = (Inr conf, w')"
  shows "conf ref_key = Some r"
  using assms
  by (auto simp: spark_conf_def py_defs ref_key_def split: option.splits val.splits)

lemma builder_success:
  assumes "builder_getOrCreate x conf w = (Inr v, w')"
  shows "\<exists>sid rb. v = Session sid \<and> sessions w' sid = Some rb
           \<and> (\<forall>k u. conf k = Some u \<longrightarrow> s_conf rb k = Some u)
           \<and> (wf_sessions w \<longrightarrow> sid < next_id w' \<and> wf_sessions w')"
    and "objs w' = objs w"
  using assms unfolding builder_getOrCreate_def
  by (auto simp: seq_Inr call_def wf_sessions_def Let_def map_add_def
      split: option.splits prod.splits if_splits)
    (meson less_SucI)+

lemma builder_success_conj:
  "builder_getOrCreate x conf w = (Inr v, w') \<Longrightarrow>
     objs w' = objs w \<and> (\<exists>sid rb. v = Session sid \<and> sessions w' sid = Some rb
           \<and> (\<forall>k u. conf k = Some u \<longrightarrow> s_conf rb k = Some u)
           \<and> (wf_sessions w \<longrightarrow> sid < next_id w' \<and> wf_sessions w'))"
  using builder_success by blast

lemma spark_conf_success:
  "spark_conf x self r w = (Inr conf, w') \<Longrightarrow> frame w w' \<and> conf ref_key = Some r"
  using spark_conf_ref keepsD [OF keeps_spark_conf] by blast

lemma jvm_success: "jvm_for_iceberg x c w = (Inr j, w') \<Longrightarrow> frame w w'"
  using keepsD [OF keeps_jvm_for_iceberg] by blast

lemma goc_success:
  assumes g: "get_or_create_spark_context x m r w = (Inr (s, c, j), w')"
  shows "objs w' = (objs w)(m := (objs w m)(mangle ''__spark'' \<mapsto> s,
            mangle ''__spark_context'' \<mapsto> c, mangle ''__jvm'' \<mapsto> j))
       \<and> (\<exists>sid rb. s = Session sid \<and> sessions w' sid = Some rb \<and> s_conf rb ref_key = Some r
            \<and> c = Context (s_context rb)
            \<and> (wf_sessions w \<longrightarrow> sid < next_id w' \<and> wf_sessions w'))"
  using g unfolding get_or_create_spark_context_def
  apply (elim seq_InrE)
  apply (drule builder_success_conj)
  apply (drule spark_conf_success)
  apply (drule jvm_success)
  apply (simp add: print_Inr setattr_Inr getattr_Inr ret_Inr sparkContext_Inr)
  apply (auto simp: frame_def wf_sessions_def mangle_def)
  done

lemma goc_builder_raises:
  assumes "objs w m (mangle ''__demo'') = Some (Demo d)"
    and "raises x (trace w @ [Print ''Creating SparkConf, SparkSession, SparkContext ...''])
           GetOrCreate = Some e"
  shows "get_or_create_spark_context x m r w
          = (Inl e, w\<lparr>trace := trace w @ [Print ''Creating SparkConf, SparkSession, SparkContext ...'',
                                          GetOrCreate]\<rparr>)"
  using assms
  by (simp add: get_or_create_spark_context_def spark_conf_def builder_getOrCreate_def
      ret_def raise_def seq_def getattr_def print_def call_def as_demo_def self_demo_def Let_def)

section \<open>Disposal and the registry, step by step\<close>

lemma dispose_run:
  assumes "objs w m (mangle ''__spark'') = Some (Session sid)"
    and "objs w m ''__spark'' = None"
    and "objs w m (mangle ''__demo'') = Some (Demo d)"
    and "objs w m ''__demo'' = None"
    and "dispose x m w = (Inr (), w')"
  shows "trace w' = trace w @ [Print ''Stopping SparkSession ...'', SessionStop sid,
                                DemoStop (demo_id d)]
         \<and> objs w' = objs w \<and> next_id w' = next_id w"
  using assms
  by (auto simp: dispose_def stop_def seq_def getattr_def delattr_def print_def call_def
      except_AttributeError_def split: option.splits exn.splits)

lemma spark_for_demo_success:
  assumes "spark_for_demo x d r w = (Inr (s, c, j, m), w')"
  obtains wa wb where "spark_dispose x w = (Inr (), wa)"
    and "NessieDemoSpark_new x d wa = (Inr m, wb)"
    and "get_or_create_spark_context x m r (wb\<lparr>registry := Some m\<rparr>) = (Inr (s, c, j), w')"
  using assms unfolding spark_for_demo_def
  by (auto simp: seq_Inr ret_Inr)

lemma spark_dispose_registered:
  assumes "registry w = Some m" and "spark_dispose x w = (Inr (), w')"
  obtains v where "dispose x m w = (Inr (), v)" and "w' = v\<lparr>registry := None\<rparr>"
  using assms unfolding spark_dispose_def
  by (auto simp: seq_Inr)

lemma spark_dispose_empties:
  "spark_dispose x w = (Inr (), w') \<Longrightarrow> registry w' = None"
  unfolding spark_dispose_def
  by (auto simp: seq_Inr split: option.splits)

lemma ex_first_run:
  "spark_for_demo ex_ext (ex_demo 7 ex_url) ''main'' (ex_world {ex_dir})
     = (Inr (Session 2, Context 1, Jvm 3, 0), ex_first)"
proof -
  have "fst (spark_for_demo ex_ext (ex_demo 7 ex_url) ''main'' (ex_world {ex_dir}))
          = Inr (Session 2, Context 1, Jvm 3, 0)"
    by (simp add: spark_for_demo_def spark_dispose_def get_or_create_spark_context_def
        spark_conf_def NessieDemoSpark_new_def NessieDemoSpark_init_def py_defs spark_defs ex_defs)
  then show ?thesis unfolding ex_first_def by (metis prod.collapse)
qed

lemma ex_second_run:
  "spark_for_demo ex_ext (ex_demo 8 ex_url) ''main'' ex_first
     = (Inr (Session 6, Context 5, Jvm 3, 4), ex_second)"
proof -
  have "fst (spark_for_demo ex_ext (ex_demo 8 ex_url) ''main'' ex_first)
          = Inr (Session 6, Context 5, Jvm 3, 4)"
    unfolding ex_first_def
    by (simp add: spark_for_demo_def spark_dispose_def dispose_def get_or_create_spark_context_def
        spark_conf_def NessieDemoSpark_new_def NessieDemoSpark_init_def py_defs spark_defs ex_defs)
  then show ?thesis unfolding ex_second_def by (metis prod.collapse)
qed

section \<open>Disposal\<close>

text \<open>
  When no outside call raises, \<open>dispose()\<close> returns: what its two blocks can raise then is
  \<open>AttributeError\<close> only, and both blocks catch it.
\<close>

lemma seq_Inl:
  "seq m f w = (Inl e, w') \<longleftrightarrow>
     (m w = (Inl e, w') \<or> (\<exists>u w1. m w = (Inr u, w1) \<and> f u w1 = (Inl e, w')))"
  by (auto simp: seq_def split: prod.splits sum.splits)

lemma except_returns:
  "(\<And>e w'. m w = (Inl e, w') \<Longrightarrow> \<exists>a. e = AttributeError a) \<Longrightarrow>
     \<exists>w'. except_AttributeError m w = (Inr (), w')"
  unfolding except_AttributeError_def
  by (cases "m w") (auto split: sum.splits exn.splits)

lemma stop_quiet:
  "(\<And>t e. raises x t e = None) \<Longrightarrow> stop x v w = (Inl err, w') \<Longrightarrow> \<exists>a. err = AttributeError a"
  by (cases v) (auto simp: stop_def seq_def call_def raise_def)

lemma dispose_returns:
  assumes q: "\<And>t e. raises x t e = None"
  shows "\<exists>w'. dispose x self w = (Inr (), w')"
proof -
  let ?a = "seq (getattr self (mangle ''__spark'')) (\<lambda>spark_sess.
            seq (print ''Stopping SparkSession ...'') (\<lambda>_.
            seq (stop x spark_sess) (\<lambda>_.
            seq (delattr self ''__spark'') (\<lambda>_.
            seq (delattr self ''__spark_context'') (\<lambda>_.
            seq (delattr self ''__jvm'') (\<lambda>_.
            seq (active_spark_context_stop x) (\<lambda>_.
            seq (gateway_shutdown x) (\<lambda>_.
            seq (\<lambda>w. (Inr (), w\<lparr>gateway := None\<rparr>)) (\<lambda>_.
            (\<lambda>w. (Inr (), w\<lparr>jvm := None\<rparr>)))))))))))"
  let ?b = "seq (seq (getattr self (mangle ''__demo'')) (stop x)) (\<lambda>_.
            delattr self ''__demo'')"
  have sq: "stop x v u = (Inl err, u') \<Longrightarrow> \<exists>a. err = AttributeError a" for v u err u'
    using stop_quiet [OF q] by blast
  have a: "\<exists>n. e = AttributeError n" if "?a u = (Inl e, u')" for u e u'
    using that q
    by (auto simp: seq_Inl getattr_def print_def delattr_def active_spark_context_stop_def
        gateway_shutdown_def call_def split: option.splits dest!: sq)
  have b: "\<exists>n. e = AttributeError n" if "?b u = (Inl e, u')" for u e u'
    using that
    by (auto simp: seq_Inl getattr_def delattr_def split: option.splits dest!: sq)
  from except_returns [of ?a w] a obtain w1 where 1: "except_AttributeError ?a w = (Inr (), w1)"
    by blast
  from except_returns [of ?b w1] b obtain w2 where 2: "except_AttributeError ?b w1 = (Inr (), w2)"
    by blast
  from 1 2 show ?thesis unfolding dispose_def by (simp add: seq_def)
qed

text \<open>
  Claim C1: calling \<open>dispose()\<close> twice in a row never raises and the second call does
  nothing, for a manager without a session and for one with a created session.

  The code does not do this. \<open>delattr(self, "__spark")\<close> names an attribute the instance
  never has (the field is stored as \<open>_NessieDemoSpark__spark\<close>), so it raises
  \<open>AttributeError\<close>, which the \<open>except\<close> clause swallows, and no field is removed; the same
  happens for \<open>delattr(self, "__demo")\<close>. Both calls return, but the second one finds every
  field still there and stops the session and the demo again. Without a session the second
  call stops the demo again.
\<close>

theorem dispose_twice_repeats_stops:
  "(case ex_manager_with_session (ex_world {ex_dir}) of (r1, w1) \<Rightarrow>
    case dispose ex_ext 0 w1 of (r2, w2) \<Rightarrow>
    case dispose ex_ext 0 w2 of (r3, w3) \<Rightarrow>
      r1 = Inr 0 \<and> r2 = Inr () \<and> r3 = Inr () \<and>
      trace w3 = trace w2 @ [Print ''Stopping SparkSession ...'', SessionStop 2, DemoStop 7])
   \<and> (case NessieDemoSpark_new ex_ext (ex_demo 7 ex_url) (ex_world {ex_dir}) of (r1, w1) \<Rightarrow>
    case dispose ex_ext 0 w1 of (r2, w2) \<Rightarrow>
    case dispose ex_ext 0 w2 of (r3, w3) \<Rightarrow>
      r1 = Inr 0 \<and> r2 = Inr () \<and> r3 = Inr () \<and> trace w3 = trace w2 @ [DemoStop 7])"
  by (simp add: ex_manager_with_session_def dispose_def get_or_create_spark_context_def
      spark_conf_def NessieDemoSpark_new_def NessieDemoSpark_init_def py_defs spark_defs ex_defs)

text \<open>
  Claim C2: after \<open>dispose()\<close> on a manager with a created session the four fields are
  cleared and the process-wide active context and gateway are shut down and cleared.

  The code does not do this either, by the same slip: after \<open>dispose()\<close> the instance has
  its four fields with their old values, the gateway and JVM references of \<open>SparkContext\<close>
  are still set, and the only outside calls made are the status line, the session's
  \<open>stop()\<close> and the demo's \<open>stop()\<close>.
  Were the names right, a second slip would still keep the gateway: once the session is
  stopped \<open>SparkContext._active_spark_context\<close> is \<open>None\<close>, so the call of \<open>stop()\<close> on it raises
  \<open>AttributeError\<close> as well and the lines after it are skipped.
\<close>

theorem dispose_leaves_fields_and_gateway:
  "(case ex_manager_with_session (ex_world {ex_dir}) of (r1, w1) \<Rightarrow>
    case dispose ex_ext 0 w1 of (r2, w2) \<Rightarrow>
      r1 = Inr 0 \<and> r2 = Inr () \<and>
      dom (objs w2 0) = {mangle ''__spark'', mangle ''__spark_context'', mangle ''__jvm'',
                         mangle ''__demo''} \<and>
      objs w2 0 = objs w1 0 \<and>
      gateway w2 = Some 3 \<and> jvm w2 = Some 3 \<and>
      trace w2 = trace w1 @ [Print ''Stopping SparkSession ...'', SessionStop 2, DemoStop 7])"
  by (auto simp add: ex_manager_with_session_def dispose_def get_or_create_spark_context_def
      spark_conf_def NessieDemoSpark_new_def NessieDemoSpark_init_def py_defs spark_defs ex_defs)

section \<open>The registry\<close>

text \<open>
  Two calls of \<open>spark_for_demo\<close> in a row that both return, in any surroundings: the registry
  holds the first manager after the first call and the second, another instance, after the
  second; the second call starts with \<open>dispose()\<close> on the first manager (the status line, the
  stop of its session, the stop of its demo); and after it the first manager still has its four
  fields with the values the first call gave them.
\<close>

lemma second_call_after_first:
  assumes first: "spark_for_demo x d1 r1 w0 = (Inr (s1, c1, j1, m1), w1)"
    and second: "spark_for_demo x d2 r2 w1 = (Inr (s2, c2, j2, m2), w2)"
  shows "registry w1 = Some m1 \<and> registry w2 = Some m2 \<and> m2 \<noteq> m1
         \<and> (\<exists>sid rest. s1 = Session sid
               \<and> trace w2 = trace w1 @ [Print ''Stopping SparkSession ...'', SessionStop sid,
                                          DemoStop (demo_id d1)] @ rest)
         \<and> objs w2 m1 = [mangle ''__demo'' \<mapsto> Demo d1, mangle ''__spark'' \<mapsto> s1,
               mangle ''__spark_context'' \<mapsto> c1, mangle ''__jvm'' \<mapsto> j1]"
proof -
  from first obtain wa wb where
    n1: "NessieDemoSpark_new x d1 wa = (Inr m1, wb)" and
    g1: "get_or_create_spark_context x m1 r1 (wb\<lparr>registry := Some m1\<rparr>) = (Inr (s1, c1, j1), w1)"
    by (rule spark_for_demo_success)
  from monoD [OF mono_get_or_create g1]
  have reg1: "registry w1 = Some m1" and id1: "next_id wb \<le> next_id w1"
    by (simp_all add: grows_def)
  from new_effect [OF n1] have m1: "m1 = next_id wa"
    and ob: "objs wb m1 = [mangle ''__demo'' \<mapsto> Demo d1]" and idb: "next_id wb = Suc m1"
    by (auto simp: frame_def constructed_def)
  from goc_success [OF g1] ob obtain sid where sid: "s1 = Session sid"
    and o1: "objs w1 m1 = [mangle ''__demo'' \<mapsto> Demo d1, mangle ''__spark'' \<mapsto> s1,
               mangle ''__spark_context'' \<mapsto> c1, mangle ''__jvm'' \<mapsto> j1]"
    by auto
  from second obtain wc wd where
    d2: "spark_dispose x w1 = (Inr (), wc)" and
    n2: "NessieDemoSpark_new x d2 wc = (Inr m2, wd)" and
    g2: "get_or_create_spark_context x m2 r2 (wd\<lparr>registry := Some m2\<rparr>) = (Inr (s2, c2, j2), w2)"
    by (rule spark_for_demo_success)
  from reg1 d2 obtain v where dv: "dispose x m1 w1 = (Inr (), v)"
    and wc: "wc = v\<lparr>registry := None\<rparr>"
    by (rule spark_dispose_registered)
  have dr: "trace v = trace w1 @ [Print ''Stopping SparkSession ...'', SessionStop sid,
                              DemoStop (demo_id d1)] \<and> objs v = objs w1 \<and> next_id v = next_id w1"
    by (rule dispose_run [OF _ _ _ _ dv]) (simp_all add: o1 sid mangle_def)
  then have tv: "trace wc = trace w1 @ [Print ''Stopping SparkSession ...'', SessionStop sid,
                              DemoStop (demo_id d1)]" and idc: "next_id wc = next_id w1"
    and oc: "objs wc = objs w1"
    by (simp_all add: wc)
  from new_effect [OF n2] have m2: "m2 = next_id wc" and pd: "prefix (trace wc) (trace wd)"
    and od: "objs wd = (objs wc)(next_id wc := [mangle ''__demo'' \<mapsto> Demo d2])"
    by (auto simp: frame_def constructed_def)
  from monoD [OF mono_get_or_create g2]
  have reg2: "registry w2 = Some m2" and p2: "prefix (trace wd) (trace w2)"
    by (simp_all add: grows_def)
  from pd p2 have "prefix (trace wc) (trace w2)" by auto
  then obtain rest where "trace w2 = trace wc @ rest" by (auto simp: prefix_def)
  with tv have tr: "trace w2 = trace w1 @ [Print ''Stopping SparkSession ...'', SessionStop sid,
                              DemoStop (demo_id d1)] @ rest" by simp
  from m2 idc id1 idb have ne: "m2 \<noteq> m1" by simp
  from goc_success [OF g2] have "objs w2 m1 = objs wd m1" using ne by simp
  also have "\<dots> = objs w1 m1" using od oc m2 ne by simp
  finally have keep: "objs w2 m1 = [mangle ''__demo'' \<mapsto> Demo d1, mangle ''__spark'' \<mapsto> s1,
               mangle ''__spark_context'' \<mapsto> c1, mangle ''__jvm'' \<mapsto> j1]"
    using o1 by simp
  from tr ne keep reg1 reg2 sid show ?thesis by blast
qed

text \<open>
  Claim C3: the registry holds at most one manager; \<open>spark_for_demo\<close> first disposes the
  registered manager, then registers the new one, so that after a second call the first manager
  has been disposed (its session, context and bridge fields cleared) and only the second manager
  is registered.

  The code keeps the registry part and misses the disposal. On two calls for the demos 7 and 8
  the registry holds manager 0, then manager 4, and \<open>dispose()\<close> runs on manager 0; but after
  the second call manager 0 still has \<open>_NessieDemoSpark__spark\<close>, \<open>__spark_context\<close>, \<open>__jvm\<close> and
  \<open>__demo\<close>, because \<open>dispose()\<close> hands the unmangled names to \<open>delattr\<close>.
\<close>

theorem second_call_leaves_first_manager_fields:
  "spark_for_demo ex_ext (ex_demo 7 ex_url) ''main'' (ex_world {ex_dir})
     = (Inr (Session 2, Context 1, Jvm 3, 0), ex_first)
   \<and> spark_for_demo ex_ext (ex_demo 8 ex_url) ''main'' ex_first
     = (Inr (Session 6, Context 5, Jvm 3, 4), ex_second)
   \<and> registry ex_first = Some 0 \<and> registry ex_second = Some 4
   \<and> (\<exists>rest. trace ex_second = trace ex_first
         @ [Print ''Stopping SparkSession ...'', SessionStop 2, DemoStop 7] @ rest)
   \<and> objs ex_second 0 (mangle ''__spark'') = Some (Session 2)
   \<and> objs ex_second 0 (mangle ''__spark_context'') = Some (Context 1)
   \<and> objs ex_second 0 (mangle ''__jvm'') = Some (Jvm 3)
   \<and> objs ex_second 0 (mangle ''__demo'') = Some (Demo (ex_demo 7 ex_url))"
  using second_call_after_first [OF ex_first_run ex_second_run] ex_first_run ex_second_run
  by (auto simp: ex_demo_def mangle_def)

text \<open>
  Claim C10: \<open>spark_for_demo\<close> registers the new manager before it creates the session and
  does not undo that. The slot is empty after the disposal; if \<open>get_or_create_spark_context\<close>
  raises, \<open>spark_for_demo\<close> raises the same exception with the new manager in the registry;
  and if it is the session builder that raises, that manager has its \<open>__demo\<close> field and no
  session field.
\<close>

theorem failed_session_creation_leaves_manager_registered:
  assumes d: "spark_dispose x w = (Inr (), w1)"
    and n: "NessieDemoSpark_new x demo w1 = (Inr m, w2)"
  shows "registry w2 = None
       \<and> (\<forall>e w'. get_or_create_spark_context x m r (w2\<lparr>registry := Some m\<rparr>) = (Inl e, w') \<longrightarrow>
             spark_for_demo x demo r w = (Inl e, w') \<and> registry w' = Some m)
       \<and> (\<forall>e. raises x (trace w2 @ [Print ''Creating SparkConf, SparkSession, SparkContext ...''])
                 GetOrCreate = Some e \<longrightarrow>
             (\<exists>w'. spark_for_demo x demo r w = (Inl e, w') \<and> registry w' = Some m
                   \<and> objs w' m = [mangle ''__demo'' \<mapsto> Demo demo]))"
proof -
  let ?w3 = "w2\<lparr>registry := Some m\<rparr>"
  have sfd: "spark_for_demo x demo r w
        = seq (get_or_create_spark_context x m r) (\<lambda>(spark, sc, j). ret (spark, sc, j, m)) ?w3"
    by (simp add: spark_for_demo_def seq_def d n)
  from new_effect [OF n] have ob: "objs w2 m = [mangle ''__demo'' \<mapsto> Demo demo]"
    and rg: "registry w2 = registry w1"
    by (auto simp: frame_def constructed_def)
  from spark_dispose_empties [OF d] rg have r0: "registry w2 = None" by simp
  have p1: "spark_for_demo x demo r w = (Inl e, w') \<and> registry w' = Some m"
    if f: "get_or_create_spark_context x m r ?w3 = (Inl e, w')" for e w'
  proof -
    from monoD [OF mono_get_or_create f] have "registry w' = Some m" by (simp add: grows_def)
    moreover from f have "spark_for_demo x demo r w = (Inl e, w')" by (simp add: sfd seq_def)
    ultimately show ?thesis by simp
  qed
  have p2: "\<exists>w'. spark_for_demo x demo r w = (Inl e, w') \<and> registry w' = Some m
                   \<and> objs w' m = [mangle ''__demo'' \<mapsto> Demo demo]"
    if f: "raises x (trace w2 @ [Print ''Creating SparkConf, SparkSession, SparkContext ...''])
                 GetOrCreate = Some e" for e
  proof -
    have "get_or_create_spark_context x m r ?w3
          = (Inl e, ?w3\<lparr>trace := trace ?w3 @
               [Print ''Creating SparkConf, SparkSession, SparkContext ...'', GetOrCreate]\<rparr>)"
      by (rule goc_builder_raises [where d = demo]) (simp_all add: ob f)
    from p1 [OF this] ob show ?thesis by auto
  qed
  from r0 p1 p2 show ?thesis by blast
qed

text \<open>Claim C10 where the session builder fails with \<open>no JVM\<close>.\<close>

theorem failed_session_creation_leaves_manager_registered_witness:
  "spark_dispose ex_ext_failing (ex_world {ex_dir}) = (Inr (), ex_world {ex_dir})
   \<and> NessieDemoSpark_new ex_ext_failing (ex_demo 7 ex_url) (ex_world {ex_dir})
       = (Inr 0, snd (NessieDemoSpark_new ex_ext_failing (ex_demo 7 ex_url) (ex_world {ex_dir})))
   \<and> (\<exists>w'. spark_for_demo ex_ext_failing (ex_demo 7 ex_url) ''main'' (ex_world {ex_dir})
              = (Inl (OtherError ''no JVM''), w')
          \<and> registry w' = Some 0
          \<and> objs w' 0 = [mangle ''__demo'' \<mapsto> Demo (ex_demo 7 ex_url)])"
proof -
  let ?w2 = "snd (NessieDemoSpark_new ex_ext_failing (ex_demo 7 ex_url) (ex_world {ex_dir}))"
  have h1: "spark_dispose ex_ext_failing (ex_world {ex_dir}) = (Inr (), ex_world {ex_dir})"
    by (simp add: spark_dispose_def ex_world_def)
  have "fst (NessieDemoSpark_new ex_ext_failing (ex_demo 7 ex_url) (ex_world {ex_dir})) = Inr 0"
    by (simp add: NessieDemoSpark_new_def NessieDemoSpark_init_def py_defs ex_defs
        ex_ext_failing_def)
  then have h2: "NessieDemoSpark_new ex_ext_failing (ex_demo 7 ex_url) (ex_world {ex_dir})
       = (Inr 0, ?w2)"
    by (metis prod.collapse)
  have h3: "raises ex_ext_failing
              (trace ?w2 @ [Print ''Creating SparkConf, SparkSession, SparkContext ...''])
              GetOrCreate = Some (OtherError ''no JVM'')"
    by (simp add: ex_ext_failing_def ex_ext_def)
  from failed_session_creation_leaves_manager_registered [OF h1 h2, of "''main''"] h3
  have "\<exists>w'. spark_for_demo ex_ext_failing (ex_demo 7 ex_url) ''main'' (ex_world {ex_dir})
              = (Inl (OtherError ''no JVM''), w')
          \<and> registry w' = Some 0
          \<and> objs w' 0 = [mangle ''__demo'' \<mapsto> Demo (ex_demo 7 ex_url)]"
    by blast
  with h1 h2 show ?thesis by blast
qed

section \<open>The directory name derived from the archive URL\<close>

lemma new_fails_on_no_match:
  "re_match (spark_tarball demo) = None \<Longrightarrow>
   fst (NessieDemoSpark_new x demo w)
     = Inl (Exception (''Invalid Spark download URL '' @ spark_tarball demo))"
  by (simp add: NessieDemoSpark_new_def NessieDemoSpark_init_def py_defs)

text \<open>
  Claim C4, as amended: for the URL
  \<open>https://example.org/dist/spark-3.2.1-bin-hadoop3.2.tgz\<close> the derived name is exactly
  \<open>spark-3.2.1-bin-hadoop3.2\<close>, and construction fails with the exception
  \<open>Invalid Spark download URL ...\<close> for every URL that nowhere contains a slash, a non-empty
  name of letters, digits, dots and hyphens, and \<open>.tgz\<close> in a row (so for every URL without
  the text \<open>.tgz\<close>). A URL that only fails to end in \<open>.tgz\<close> is not rejected.
\<close>

theorem url_without_name_tgz_rejected:
  "derive_dir_name ''https://example.org/dist/spark-3.2.1-bin-hadoop3.2.tgz'' w
     = (Inr ''spark-3.2.1-bin-hadoop3.2'', w)
   \<and> ((\<nexists>pre n rest. spark_tarball demo = pre @ ''/'' @ n @ ''.tgz'' @ rest \<and> n \<noteq> []
          \<and> (\<forall>c\<in>set n. name_char c)) \<longrightarrow>
        fst (NessieDemoSpark_new x demo w)
          = Inl (Exception (''Invalid Spark download URL '' @ spark_tarball demo)))"
proof (intro conjI impI)
  show "derive_dir_name ''https://example.org/dist/spark-3.2.1-bin-hadoop3.2.tgz'' w
     = (Inr ''spark-3.2.1-bin-hadoop3.2'', w)"
    by (simp add: derive_dir_name_def ret_def raise_def name_char_def dot_char_def)
next
  assume no: "\<nexists>pre n rest. spark_tarball demo = pre @ ''/'' @ n @ ''.tgz'' @ rest \<and> n \<noteq> []
          \<and> (\<forall>c\<in>set n. name_char c)"
  have "re_match (spark_tarball demo) = None"
  proof (cases "re_match (spark_tarball demo)")
    case None
    then show ?thesis .
  next
    case (Some n)
    from re_match_sound [OF Some] no show ?thesis by blast
  qed
  then show "fst (NessieDemoSpark_new x demo w)
          = Inl (Exception (''Invalid Spark download URL '' @ spark_tarball demo))"
    by (rule new_fails_on_no_match)
qed

text \<open>The amended claim at a URL ending in \<open>.zip\<close>: no such part occurs, construction fails.\<close>

theorem url_without_name_tgz_rejected_witness:
  "(\<nexists>pre n rest. ''https://example.org/dist/spark-3.2.1-bin-hadoop3.2.zip''
        = pre @ ''/'' @ n @ ''.tgz'' @ rest \<and> n \<noteq> [] \<and> (\<forall>c\<in>set n. name_char c))
   \<and> fst (NessieDemoSpark_new ex_ext
          (ex_demo 0 ''https://example.org/dist/spark-3.2.1-bin-hadoop3.2.zip'') (ex_world {}))
       = Inl (Exception ''Invalid Spark download URL https://example.org/dist/spark-3.2.1-bin-hadoop3.2.zip'')"
proof -
  let ?u = "''https://example.org/dist/spark-3.2.1-bin-hadoop3.2.zip''"
  have none: "re_match ?u = None"
    by (simp add: name_char_def dot_char_def)
  have no: "\<nexists>pre n rest. ?u = pre @ ''/'' @ n @ ''.tgz'' @ rest \<and> n \<noteq> []
          \<and> (\<forall>c\<in>set n. name_char c)"
  proof
    assume "\<exists>pre n rest. ?u = pre @ ''/'' @ n @ ''.tgz'' @ rest \<and> n \<noteq> []
          \<and> (\<forall>c\<in>set n. name_char c)"
    then obtain pre n rest where u: "?u = pre @ ''/'' @ n @ ''.tgz'' @ rest" and n: "n \<noteq> []"
          "\<forall>c\<in>set n. name_char c" by blast
    have "set pre \<subseteq> set ?u" by (subst u) auto
    then have "\<forall>c\<in>set pre. dot_char c" by (auto simp: dot_char_def)
    from re_match_complete [OF this n, of rest] none u show False by simp
  qed
  have sp: "spark_tarball (ex_demo 0 ?u) = ?u" by (simp add: ex_demo_def)
  from no url_without_name_tgz_rejected [of "ex_world {}" "ex_demo 0 ?u" ex_ext]
  show ?thesis unfolding sp by simp
qed

text \<open>
  Claim C4 as it was stated fails: this URL has no \<open>.tgz\<close> suffix (it ends in \<open>.zip\<close>), and
  construction succeeds.
\<close>

theorem url_with_tgz_inside_accepted_counterexample:
  "\<not> suffix ''.tgz'' ''https://example.org/dist/spark-3.2.1-bin-hadoop3.2.tgz.zip''
   \<and> fst (NessieDemoSpark_new ex_ext
        (ex_demo 0 ''https://example.org/dist/spark-3.2.1-bin-hadoop3.2.tgz.zip'') (ex_world {}))
      = Inr 0"
  by (simp add: suffix_def NessieDemoSpark_new_def NessieDemoSpark_init_def py_defs ex_defs)

text \<open>
  Claim C9: the check is not anchored at the end of the URL. Any URL (a string without a line
  break before the slash in question) that contains a slash, a non-empty name of letters,
  digits, dots and hyphens, and \<open>.tgz\<close> is accepted whatever follows; for
  \<open>https://example.org/spark-1.0.tgz.zip\<close>, whose last path segment does not end in \<open>.tgz\<close>,
  construction succeeds with the derived name \<open>spark-1.0\<close>.
\<close>

theorem url_match_not_anchored_at_end:
  "((\<forall>c\<in>set pre. dot_char c) \<and> n \<noteq> [] \<and> (\<forall>c\<in>set n. name_char c) \<longrightarrow>
      (\<exists>m. derive_dir_name (pre @ ''/'' @ n @ ''.tgz'' @ rest) w = (Inr m, w)))
   \<and> \<not> suffix ''.tgz'' ''https://example.org/spark-1.0.tgz.zip''
   \<and> derive_dir_name ''https://example.org/spark-1.0.tgz.zip'' w = (Inr ''spark-1.0'', w)
   \<and> (case NessieDemoSpark_new ex_ext (ex_demo 0 ''https://example.org/spark-1.0.tgz.zip'')
             (ex_world {}) of (r, w') \<Rightarrow>
         r = Inr 0 \<and> environ w' ''SPARK_HOME'' = Some ''/assets/spark-1.0'')"
proof (intro conjI impI)
  assume a: "(\<forall>c\<in>set pre. dot_char c) \<and> n \<noteq> [] \<and> (\<forall>c\<in>set n. name_char c)"
  then have "re_match (pre @ ''/'' @ n @ ''.tgz'' @ rest) \<noteq> None"
    using re_match_complete by blast
  then show "\<exists>m. derive_dir_name (pre @ ''/'' @ n @ ''.tgz'' @ rest) w = (Inr m, w)"
    by (auto simp: derive_dir_name_def ret_def)
next
  show "\<not> suffix ''.tgz'' ''https://example.org/spark-1.0.tgz.zip''"
    by (simp add: suffix_def)
next
  show "derive_dir_name ''https://example.org/spark-1.0.tgz.zip'' w = (Inr ''spark-1.0'', w)"
    by (simp add: derive_dir_name_def ret_def raise_def name_char_def dot_char_def)
next
  show "case NessieDemoSpark_new ex_ext (ex_demo 0 ''https://example.org/spark-1.0.tgz.zip'')
             (ex_world {}) of (r, w') \<Rightarrow>
         r = Inr 0 \<and> environ w' ''SPARK_HOME'' = Some ''/assets/spark-1.0''"
    by (simp add: NessieDemoSpark_new_def NessieDemoSpark_init_def py_defs ex_defs)
qed

text \<open>The general part of claim C9 at the URL of its example.\<close>

theorem url_match_not_anchored_at_end_witness:
  "list_all dot_char ''https://example.org'' \<and> ''spark-1.0'' \<noteq> []
   \<and> list_all name_char ''spark-1.0''
   \<and> (\<exists>m. derive_dir_name (''https://example.org'' @ ''/'' @ ''spark-1.0'' @ ''.tgz'' @ ''.zip'')
             (ex_world {}) = (Inr m, ex_world {}))"
proof -
  have h: "(\<forall>c\<in>set ''https://example.org''. dot_char c) \<and> ''spark-1.0'' \<noteq> []
      \<and> (\<forall>c\<in>set ''spark-1.0''. name_char c)"
    by (simp add: dot_char_def name_char_def)
  from h url_match_not_anchored_at_end
    [of "''https://example.org''" "''spark-1.0''" "''.zip''" "ex_world {}"]
  show ?thesis unfolding list_all_iff by blast
qed

section \<open>Download and extraction at construction\<close>

text \<open>
  Claim C7: during construction, if the extracted directory exists neither the download nor
  the extraction is called; if it does not exist but the archive does, the extraction is called
  and the download is not; if neither exists the download is called and, when it returns, the
  extraction.
\<close>

theorem download_and_extract_only_when_missing:
  assumes m: "re_match (spark_tarball demo) = Some n"
  shows "(let es = new_events w (snd (NessieDemoSpark_new x demo w));
              spark_dir = asset_dir demo n;
              tgz = asset_dir demo (n @ ''.tgz'');
              dl = Wget (spark_tarball demo) tgz;
              ex = ExecFail [''tar'', ''-x'', ''-C'', abspath x (os_path_join spark_dir ''..''),
                             ''-f'', tgz]
          in (spark_dir \<in> fs w \<longrightarrow> \<not> list_ex is_download es \<and> \<not> list_ex is_extract es)
           \<and> (spark_dir \<notin> fs w \<and> tgz \<in> fs w \<longrightarrow> \<not> list_ex is_download es \<and> ex \<in> set es)
           \<and> (spark_dir \<notin> fs w \<and> tgz \<notin> fs w \<longrightarrow>
                dl \<in> set es \<and> (raises x (trace w) dl = None \<longrightarrow> ex \<in> set es)))"
proof -
  have a: "\<not> list_ex is_download (new_events w (snd (NessieDemoSpark_new x demo w)))
           \<and> \<not> list_ex is_extract (new_events w (snd (NessieDemoSpark_new x demo w)))"
    if "asset_dir demo n \<in> fs w"
    using new_events_dir_present [OF m that, of x]
    by (simp add: is_download_def is_extract_def)
  have b: "\<not> list_ex is_download (new_events w (snd (NessieDemoSpark_new x demo w)))
           \<and> ExecFail [''tar'', ''-x'', ''-C'', abspath x (os_path_join (asset_dir demo n) ''..''),
                       ''-f'', asset_dir demo (n @ ''.tgz'')]
               \<in> set (new_events w (snd (NessieDemoSpark_new x demo w)))"
    if "asset_dir demo n \<notin> fs w" "asset_dir demo (n @ ''.tgz'') \<in> fs w"
    using new_events_archive_present [OF m that, of x]
    by (auto simp: is_download_def)
  have c: "Wget (spark_tarball demo) (asset_dir demo (n @ ''.tgz''))
               \<in> set (new_events w (snd (NessieDemoSpark_new x demo w)))
           \<and> (raises x (trace w) (Wget (spark_tarball demo) (asset_dir demo (n @ ''.tgz''))) = None
               \<longrightarrow> ExecFail [''tar'', ''-x'', ''-C'',
                        abspath x (os_path_join (asset_dir demo n) ''..''),
                        ''-f'', asset_dir demo (n @ ''.tgz'')]
                     \<in> set (new_events w (snd (NessieDemoSpark_new x demo w))))"
    if "asset_dir demo n \<notin> fs w" "asset_dir demo (n @ ''.tgz'') \<notin> fs w"
    using new_events_nothing_present [OF m that, of x]
    by auto
  from a b c show ?thesis unfolding Let_def by blast
qed

text \<open>Claim C7 with the directory present, with only the archive present, and with neither.\<close>

theorem download_and_extract_only_when_missing_witness:
  "re_match (spark_tarball (ex_demo 7 ex_url)) = Some ''spark-3.2.1-bin-hadoop3.2''
   \<and> \<not> list_ex is_download (new_events (ex_world {ex_dir})
          (snd (NessieDemoSpark_new ex_ext (ex_demo 7 ex_url) (ex_world {ex_dir}))))
   \<and> \<not> list_ex is_extract (new_events (ex_world {ex_dir})
          (snd (NessieDemoSpark_new ex_ext (ex_demo 7 ex_url) (ex_world {ex_dir}))))
   \<and> \<not> list_ex is_download (new_events (ex_world {ex_dir @ ''.tgz''})
          (snd (NessieDemoSpark_new ex_ext (ex_demo 7 ex_url) (ex_world {ex_dir @ ''.tgz''}))))
   \<and> list_ex is_extract (new_events (ex_world {ex_dir @ ''.tgz''})
          (snd (NessieDemoSpark_new ex_ext (ex_demo 7 ex_url) (ex_world {ex_dir @ ''.tgz''}))))
   \<and> list_ex is_download (new_events (ex_world {})
          (snd (NessieDemoSpark_new ex_ext (ex_demo 7 ex_url) (ex_world {}))))
   \<and> list_ex is_extract (new_events (ex_world {})
          (snd (NessieDemoSpark_new ex_ext (ex_demo 7 ex_url) (ex_world {}))))"
proof -
  have h: "re_match (spark_tarball (ex_demo 7 ex_url)) = Some ''spark-3.2.1-bin-hadoop3.2''"
    by (simp add: ex_defs)
  have ad: "asset_dir (ex_demo 7 ex_url) ''spark-3.2.1-bin-hadoop3.2'' = ex_dir"
    "asset_dir (ex_demo 7 ex_url) (''spark-3.2.1-bin-hadoop3.2'' @ ''.tgz'') = ex_dir @ ''.tgz''"
    by (simp_all add: ex_defs)
  have r: "raises ex_ext t e = None" for t e
    by (simp add: ex_ext_def)
  have f: "fs (ex_world S) = S" for S
    by (simp add: ex_world_def)
  have ne: "ex_dir \<noteq> ex_dir @ ''.tgz''" by simp
  have ie: "is_extract (ExecFail a)" for a by (simp add: is_extract_def)
  have idl: "is_download (Wget u t)" for u t by (simp add: is_download_def)
  from download_and_extract_only_when_missing [OF h, of "ex_world {ex_dir}" ex_ext]
  have 1: "\<not> list_ex is_download (new_events (ex_world {ex_dir})
          (snd (NessieDemoSpark_new ex_ext (ex_demo 7 ex_url) (ex_world {ex_dir}))))
   \<and> \<not> list_ex is_extract (new_events (ex_world {ex_dir})
          (snd (NessieDemoSpark_new ex_ext (ex_demo 7 ex_url) (ex_world {ex_dir}))))"
    unfolding Let_def ad f by simp
  from download_and_extract_only_when_missing [OF h, of "ex_world {ex_dir @ ''.tgz''}" ex_ext] ne
  have 2: "\<not> list_ex is_download (new_events (ex_world {ex_dir @ ''.tgz''})
          (snd (NessieDemoSpark_new ex_ext (ex_demo 7 ex_url) (ex_world {ex_dir @ ''.tgz''}))))
   \<and> list_ex is_extract (new_events (ex_world {ex_dir @ ''.tgz''})
          (snd (NessieDemoSpark_new ex_ext (ex_demo 7 ex_url) (ex_world {ex_dir @ ''.tgz''}))))"
    unfolding Let_def ad f by (simp add: list_ex_iff) (blast intro: ie)
  from download_and_extract_only_when_missing [OF h, of "ex_world {}" ex_ext]
  have 3: "list_ex is_download (new_events (ex_world {})
          (snd (NessieDemoSpark_new ex_ext (ex_demo 7 ex_url) (ex_world {}))))
   \<and> list_ex is_extract (new_events (ex_world {})
          (snd (NessieDemoSpark_new ex_ext (ex_demo 7 ex_url) (ex_world {}))))"
    unfolding Let_def ad f r by (simp add: list_ex_iff) (blast intro: ie idl)
  from h 1 2 3 show ?thesis by blast
qed

section \<open>Sessions for a reference\<close>

text \<open>
  Claim C5: on a manager whose session was never created, \<open>session_for_ref\<close> fails (with
  \<open>AttributeError\<close> for the missing field \<open>_NessieDemoSpark__spark\<close>) and leaves the state as
  it was.
\<close>

theorem session_for_ref_without_session_fails:
  "NessieDemoSpark_new x demo w = (Inr self, w') \<Longrightarrow>
     session_for_ref x self r w' = (Inl (AttributeError (mangle ''__spark'')), w')"
proof -
  assume a: "NessieDemoSpark_new x demo w = (Inr self, w')"
  from new_effect [OF a] have "self = next_id w"
    and "objs w' = (objs w)(next_id w := [mangle ''__demo'' \<mapsto> Demo demo])"
    by (auto simp: frame_def constructed_def)
  then have "objs w' self (mangle ''__spark'') = None" by (simp add: mangle_def)
  then show ?thesis by (simp add: session_for_ref_def seq_def getattr_def)
qed

text \<open>Claim C5 right after construction.\<close>

theorem session_for_ref_without_session_fails_witness:
  "NessieDemoSpark_new ex_ext (ex_demo 7 ex_url) (ex_world {ex_dir})
     = (Inr 0, snd (NessieDemoSpark_new ex_ext (ex_demo 7 ex_url) (ex_world {ex_dir})))
   \<and> session_for_ref ex_ext 0 ''feature-1''
       (snd (NessieDemoSpark_new ex_ext (ex_demo 7 ex_url) (ex_world {ex_dir})))
     = (Inl (AttributeError ''_NessieDemoSpark__spark''),
        snd (NessieDemoSpark_new ex_ext (ex_demo 7 ex_url) (ex_world {ex_dir})))"
proof -
  let ?w = "snd (NessieDemoSpark_new ex_ext (ex_demo 7 ex_url) (ex_world {ex_dir}))"
  have "fst (NessieDemoSpark_new ex_ext (ex_demo 7 ex_url) (ex_world {ex_dir})) = Inr 0"
    by (simp add: NessieDemoSpark_new_def NessieDemoSpark_init_def py_defs ex_defs)
  then have h: "NessieDemoSpark_new ex_ext (ex_demo 7 ex_url) (ex_world {ex_dir}) = (Inr 0, ?w)"
    by (metis prod.collapse)
  from session_for_ref_without_session_fails [OF h, of "''feature-1''"] h
  show ?thesis by (simp add: mangle_def)
qed

text \<open>
  Claim C6: after the base session was created for the reference \<open>r0\<close> (\<open>main\<close> in the claim),
  \<open>session_for_ref\<close> for \<open>r\<close> (\<open>feature-1\<close>) returns, when pyspark's two calls return, a session
  that is not the base session, on the same context, whose reference is \<open>r\<close>; the base session
  is as it was, with reference \<open>r0\<close>; every other key of the new session is as \<open>newSession()\<close>
  left it, and no other session changed.
\<close>

theorem session_for_ref_derives_scoped_session:
  assumes wf: "wf_sessions w"
    and g: "get_or_create_spark_context x self r0 w = (Inr (Session b, c, j), w1)"
    and e1: "raises x (trace w1) (NewSession b) = None"
    and e2: "raises x (trace w1 @ [NewSession b]) (ConfSet (next_id w1) ref_key r) = None"
  shows "\<exists>n w2 rb rn. session_for_ref x self r w1 = (Inr (Session n), w2) \<and> n \<noteq> b
          \<and> sessions w1 b = Some rb \<and> sessions w2 b = Some rb \<and> s_conf rb ref_key = Some r0
          \<and> sessions w2 n = Some rn \<and> s_context rn = s_context rb \<and> c = Context (s_context rb)
          \<and> s_conf rn ref_key = Some r
          \<and> (\<forall>k. k \<noteq> ref_key \<longrightarrow> s_conf rn k = context_conf w1 (s_context rb) k)
          \<and> (\<forall>s. s \<noteq> n \<longrightarrow> sessions w2 s = sessions w1 s)"
proof -
  from goc_success [OF g] wf obtain rb where
    at: "objs w1 self (mangle ''__spark'') = Some (Session b)" and
    rb: "sessions w1 b = Some rb" "s_conf rb ref_key = Some r0" "c = Context (s_context rb)" and
    lt: "b < next_id w1"
    by (auto simp: mangle_def)
  let ?n = "next_id w1"
  let ?rn = "\<lparr>s_context = s_context rb,
              s_conf = (context_conf w1 (s_context rb))(ref_key \<mapsto> r)\<rparr>"
  let ?w2 = "w1\<lparr>trace := trace w1 @ [NewSession b, ConfSet ?n ref_key r],
               fs := fs_effect x (ConfSet ?n ref_key r) (fs_effect x (NewSession b) (fs w1)),
               next_id := Suc ?n,
               sessions := (sessions w1)(?n \<mapsto> ?rn)\<rparr>"
  have run: "session_for_ref x self r w1 = (Inr (Session ?n), ?w2)"
    using at rb(1) e1 e2
    by (simp add: session_for_ref_def seq_def getattr_def newSession_def call_def
        session_conf_set_def ret_def ref_key_def)
  from lt have ne: "?n \<noteq> b" by simp
  have "session_for_ref x self r w1 = (Inr (Session ?n), ?w2) \<and> ?n \<noteq> b
          \<and> sessions w1 b = Some rb \<and> sessions ?w2 b = Some rb \<and> s_conf rb ref_key = Some r0
          \<and> sessions ?w2 ?n = Some ?rn \<and> s_context ?rn = s_context rb \<and> c = Context (s_context rb)
          \<and> s_conf ?rn ref_key = Some r
          \<and> (\<forall>k. k \<noteq> ref_key \<longrightarrow> s_conf ?rn k = context_conf w1 (s_context rb) k)
          \<and> (\<forall>s. s \<noteq> ?n \<longrightarrow> sessions ?w2 s = sessions w1 s)"
    using run ne rb lt by simp
  then show ?thesis by blast
qed

text \<open>Claim C6 for \<open>main\<close> and \<open>feature-1\<close>.\<close>

theorem session_for_ref_derives_scoped_session_witness:
  "wf_sessions ex_constructed
   \<and> get_or_create_spark_context ex_ext 0 ''main'' ex_constructed
       = (Inr (Session 2, Context 1, Jvm 3), ex_with_session)
   \<and> (\<exists>n w2 rb rn. session_for_ref ex_ext 0 ''feature-1'' ex_with_session = (Inr (Session n), w2)
        \<and> n \<noteq> 2 \<and> sessions w2 2 = Some rb \<and> s_conf rb ref_key = Some ''main''
        \<and> sessions w2 n = Some rn \<and> s_context rn = 1 \<and> s_context rb = 1
        \<and> s_conf rn ref_key = Some ''feature-1'')"
proof -
  have h1: "wf_sessions ex_constructed"
    by (simp add: wf_sessions_def ex_constructed_eq ex_world_def)
  have "fst (get_or_create_spark_context ex_ext 0 ''main'' ex_constructed)
          = Inr (Session 2, Context 1, Jvm 3)"
    by (simp add: ex_constructed_eq get_or_create_spark_context_def spark_conf_def py_defs
        spark_defs ex_defs)
  then have h2: "get_or_create_spark_context ex_ext 0 ''main'' ex_constructed
       = (Inr (Session 2, Context 1, Jvm 3), ex_with_session)"
    unfolding ex_with_session_def by (metis prod.collapse)
  have h3: "raises ex_ext (trace ex_with_session) (NewSession 2) = None"
    by (simp add: ex_ext_def)
  have h4: "raises ex_ext (trace ex_with_session @ [NewSession 2])
              (ConfSet (next_id ex_with_session) ref_key ''feature-1'') = None"
    by (simp add: ex_ext_def)
  from session_for_ref_derives_scoped_session [OF h1 h2 h3 h4]
  obtain n w2 rb rn where
    "session_for_ref ex_ext 0 ''feature-1'' ex_with_session = (Inr (Session n), w2)"
    "n \<noteq> 2" "sessions w2 2 = Some rb" "s_conf rb ref_key = Some ''main''"
    "sessions w2 n = Some rn" "s_context rn = s_context rb" "Context 1 = Context (s_context rb)"
    "s_conf rn ref_key = Some ''feature-1''"
    by blast
  with h1 h2 show ?thesis by auto
qed

section \<open>The configuration\<close>



end
